theory Spec2Isabelle
  imports Main "HOL-Library.Monad_Syntax"
begin

section \<open>Abstract syntax (ast.ts)\<close>

text \<open>
  A variable is the pair of a source name and an integer id; the id tells apart the
  instances of one rule. Ids are the integers handed out by \<open>nextVarId\<close> and the
  sentinel \<open>-1\<close> of the parser.
\<close>

record Var =
  varId :: int
  varName :: string

text \<open>
  The source tells the variants of a term apart by the field that is present
  (\<open>'var' in t\<close>, \<open>'atom' in t\<close>, \<open>'f' in t\<close>, \<open>'head' in t\<close>):
  one constructor per variant, with the fields as arguments. The list cell, with its
  fields \<open>head\<close> and \<open>tail\<close>, is the variant that \<open>Types.fs\<close> names \<open>ConsTerm\<close>.
\<close>

datatype Term =
    VarTerm Var
  | AtomTerm string
  | AppTerm string Term
  | ConsTerm Term Term

definition nilTerm :: Term where
  "nilTerm = AtomTerm ''nil''"

text \<open>
  A proposition is a \<open>PredProp\<close> (told by \<open>'pred' in p\<close>) or a conjunction (told by
  \<open>'left' in p\<close>); the head of a rule is a \<open>PredProp\<close>, its goal may be absent.
\<close>

record PredProp =
  pred :: string
  pterm :: Term

datatype Prop =
    Pred PredProp
  | ConjProp Prop Prop

definition CutProp :: PredProp where
  "CutProp = \<lparr>pred = ''!'', pterm = nilTerm\<rparr>"

definition TrueProp :: PredProp where
  "TrueProp = \<lparr>pred = ''true'', pterm = nilTerm\<rparr>"

record Rule =
  head :: PredProp
  goal :: "Prop option"

text \<open>
  \<open>Knowledge\<close> and \<open>Env\<close> are objects used as dictionaries; their declarations give them
  index signatures (\<open>[predName: string]: Rule[] | undefined\<close> and a dictionary of
  dictionaries keyed by name and then by id). They are modelled as what these types say:
  maps over the properties the object itself holds, \<open>undefined\<close> being \<open>None\<close>. A name
  that every object inherits a member for (\<open>constructor\<close>, \<open>toString\<close> and the like) is
  looked up like any other name here; as a predicate name it is outside this model.
\<close>

type_synonym Knowledge = "string \<rightharpoonup> Rule list"

type_synonym Env = "string \<rightharpoonup> (int \<rightharpoonup> Term)"

section \<open>Environments (evaluating.ts, Env)\<close>

definition Env_default :: Env where
  "Env_default = Map.empty"

definition Env_tryFind :: "Env \<Rightarrow> Var \<Rightarrow> Term option" where
  "Env_tryFind env v =
     (case env (varName v) of
        None \<Rightarrow> None
      | Some idMap \<Rightarrow> idMap (varId v))"

text \<open>
  \<open>Env.substitute\<close> follows bindings for as long as it finds them, so on an environment
  with a cycle it does not return. The result \<open>None\<close> stands for a call that does not
  return; \<open>Some t\<close> is the term it returns.
\<close>

partial_function (option) Env_substitute :: "Env \<Rightarrow> Term \<Rightarrow> Term option" where
  "Env_substitute env t =
     (case t of
        VarTerm v \<Rightarrow>
          (case Env_tryFind env v of
             None \<Rightarrow> Some t
           | Some bound \<Rightarrow> Env_substitute env bound)
      | AtomTerm a \<Rightarrow> Some t
      | AppTerm f x \<Rightarrow>
          Env_substitute env x \<bind> (\<lambda>x'. Some (AppTerm f x'))
      | ConsTerm hd1 tl1 \<Rightarrow>
          Env_substitute env hd1 \<bind> (\<lambda>hd1'.
          Env_substitute env tl1 \<bind> (\<lambda>tl1'. Some (ConsTerm hd1' tl1'))))"

text \<open>
  \<open>Env.bind\<close>: the term is substituted first; a variable is never bound to itself;
  otherwise the id map of the variable's name is copied with the new entry and the
  environment is copied with that id map. It returns when the substitution does.
\<close>

definition Env_bind :: "Env \<Rightarrow> Var \<Rightarrow> Term \<Rightarrow> Env option" where
  "Env_bind env v t =
     Env_substitute env t \<bind> (\<lambda>substTerm.
       if (case substTerm of
             VarTerm w \<Rightarrow> varName w = varName v \<and> varId w = varId v
           | _ \<Rightarrow> False)
       then Some env
       else
         let idMap = (case env (varName v) of None \<Rightarrow> Map.empty | Some m \<Rightarrow> m)
                       (varId v \<mapsto> substTerm)
         in Some (env(varName v \<mapsto> idMap)))"

text \<open>
  \<open>Env.tryUnify\<close> answers an environment or \<open>undefined\<close>, and it may not return:
  the outer \<open>option\<close> is the return (\<open>None\<close>: no return), the inner one the answer
  (\<open>None\<close>: \<open>undefined\<close>, the terms do not unify). The local helper \<open>tryUnifyVar\<close> and
  \<open>tryUnify\<close> call each other; the helper's body stands here at each of its call sites
  and is named again below.
\<close>

partial_function (option) Env_tryUnify :: "Env \<Rightarrow> Term \<Rightarrow> Term \<Rightarrow> Env option option" where
  "Env_tryUnify env lTerm rTerm =
     (case lTerm of
        VarTerm v \<Rightarrow>
          (case Env_tryFind env v of
             None \<Rightarrow> map_option Some (Env_bind env v rTerm)
           | Some bound \<Rightarrow>
               Env_substitute env bound \<bind> (\<lambda>b. Env_tryUnify env rTerm b))
      | AtomTerm a \<Rightarrow>
          (case rTerm of
             VarTerm v \<Rightarrow>
               (case Env_tryFind env v of
                  None \<Rightarrow> map_option Some (Env_bind env v lTerm)
                | Some bound \<Rightarrow>
                    Env_substitute env bound \<bind> (\<lambda>b. Env_tryUnify env lTerm b))
           | AtomTerm b \<Rightarrow> if a = b then Some (Some env) else Some None
           | _ \<Rightarrow> Some None)
      | AppTerm f x \<Rightarrow>
          (case rTerm of
             VarTerm v \<Rightarrow>
               (case Env_tryFind env v of
                  None \<Rightarrow> map_option Some (Env_bind env v lTerm)
                | Some bound \<Rightarrow>
                    Env_substitute env bound \<bind> (\<lambda>b. Env_tryUnify env lTerm b))
           | AppTerm g y \<Rightarrow> if f = g then Env_tryUnify env x y else Some None
           | _ \<Rightarrow> Some None)
      | ConsTerm hd1 tl1 \<Rightarrow>
          (case rTerm of
             VarTerm v \<Rightarrow>
               (case Env_tryFind env v of
                  None \<Rightarrow> map_option Some (Env_bind env v lTerm)
                | Some bound \<Rightarrow>
                    Env_substitute env bound \<bind> (\<lambda>b. Env_tryUnify env lTerm b))
           | ConsTerm hd2 tl2 \<Rightarrow>
               Env_tryUnify env hd1 hd2 \<bind> (\<lambda>r.
                 case r of
                   None \<Rightarrow> Some None
                 | Some env2 \<Rightarrow> Env_tryUnify env2 tl1 tl2)
           | _ \<Rightarrow> Some None))"

declare Env_substitute.simps [code]

declare Env_tryUnify.simps [code]

definition tryUnifyVar :: "Env \<Rightarrow> Var \<Rightarrow> Term \<Rightarrow> Env option option" where
  "tryUnifyVar env v t =
     (case Env_tryFind env v of
        None \<Rightarrow> map_option Some (Env_bind env v t)
      | Some bound \<Rightarrow> Env_substitute env bound \<bind> (\<lambda>b. Env_tryUnify env t b))"

section \<open>Terms, propositions and rules (evaluating.ts, Term, Prop, Rule)\<close>

fun Term_vars :: "Term \<Rightarrow> Var list" where
  "Term_vars (VarTerm v) = [v]"
| "Term_vars (AtomTerm a) = []"
| "Term_vars (AppTerm f x) = Term_vars x"
| "Term_vars (ConsTerm hd1 tl1) = Term_vars hd1 @ Term_vars tl1"

fun Term_withVarId :: "Term \<Rightarrow> int \<Rightarrow> Term" where
  "Term_withVarId (VarTerm v) i = VarTerm \<lparr>varId = i, varName = varName v\<rparr>"
| "Term_withVarId (AtomTerm a) i = AtomTerm a"
| "Term_withVarId (AppTerm f x) i = AppTerm f (Term_withVarId x i)"
| "Term_withVarId (ConsTerm hd1 tl1) i = ConsTerm (Term_withVarId hd1 i) (Term_withVarId tl1 i)"

definition PredProp_withVarId :: "PredProp \<Rightarrow> int \<Rightarrow> PredProp" where
  "PredProp_withVarId p i = \<lparr>pred = pred p, pterm = Term_withVarId (pterm p) i\<rparr>"

fun Prop_withVarId :: "Prop \<Rightarrow> int \<Rightarrow> Prop" where
  "Prop_withVarId (Pred p) i = Pred (PredProp_withVarId p i)"
| "Prop_withVarId (ConjProp l r) i = ConjProp (Prop_withVarId l i) (Prop_withVarId r i)"

fun Prop_vars :: "Prop \<Rightarrow> Var list" where
  "Prop_vars (Pred p) = Term_vars (pterm p)"
| "Prop_vars (ConjProp l r) = Prop_vars l @ Prop_vars r"

text \<open>
  \<open>nextVarId\<close> is a counter shared by the whole module: \<open>++count\<close>. The count is passed in
  and handed back with the id.
\<close>

definition nextVarId :: "int \<Rightarrow> int \<times> int" where
  "nextVarId count = (count + 1, count + 1)"

definition Prop_refresh :: "Prop \<Rightarrow> int \<Rightarrow> Prop \<times> int" where
  "Prop_refresh p count = (let (i, count') = nextVarId count in (Prop_withVarId p i, count'))"

definition Rule_refresh :: "Rule \<Rightarrow> int \<Rightarrow> Rule \<times> int" where
  "Rule_refresh rule count =
     (let (i, count') = nextVarId count in
      (\<lparr>head = PredProp_withVarId (head rule) i,
        goal = (case goal rule of None \<Rightarrow> None | Some g \<Rightarrow> Some (Prop_withVarId g i))\<rparr>,
       count'))"

section \<open>Knowledge (evaluating.ts, Knowledge)\<close>

definition Knowledge_default :: Knowledge where
  "Knowledge_default = Map.empty"

definition Knowledge_rules :: "Knowledge \<Rightarrow> string \<Rightarrow> Rule list" where
  "Knowledge_rules knowledge predName =
     (case knowledge predName of None \<Rightarrow> [] | Some rs \<Rightarrow> rs)"

definition Knowledge_assume :: "Knowledge \<Rightarrow> Rule \<Rightarrow> Knowledge" where
  "Knowledge_assume knowledge rule =
     (let predName = pred (head rule);
          rules = (case knowledge predName of None \<Rightarrow> [] | Some rs \<Rightarrow> rs) @ [rule]
      in knowledge(predName \<mapsto> rules))"

fun Knowledge_assumeMany :: "Knowledge \<Rightarrow> Rule list \<Rightarrow> Knowledge" where
  "Knowledge_assumeMany k [] = k"
| "Knowledge_assumeMany k (rule # rules) = Knowledge_assumeMany (Knowledge_assume k rule) rules"

section \<open>The prover (evaluating.ts, prove)\<close>

record ProveResult =
  result_env :: Env
  result_cut :: bool

definition isNil :: "Term \<Rightarrow> bool" where
  "isNil t = (case t of AtomTerm a \<Rightarrow> a = ''nil'' | _ \<Rightarrow> False)"

text \<open>
  \<open>provePred\<close> and \<open>proveProp\<close> are generators: a \<open>for \<dots> of\<close> loop pulls one result,
  runs its body, and pulls the next one only when the body comes back for it; a \<open>return\<close>
  in the body drops the generator where it stands, with every generator it was pulling
  from. The model passes the loop body to the generator as its consumer: \<open>yield r\<close> is a
  call of the consumer on \<open>r\<close>, and the consumer answers whether the generator is resumed.

  \<^item> \<open>Resume\<close>: the body came back for the next result.
  \<^item> \<open>Stop d\<close>: a \<open>return\<close> in the body of a rule loop has ended that loop; the generators
    below it are dropped. \<open>d\<close> counts the rule loops between the generator that reads
    the answer and the loop that returned: \<open>Stop 0\<close> is read by the loop that returned.

  \<open>proveRules\<close> is the loop over the rules in \<open>provePred\<close>, one rule per step.

  The state that runs through a proof is the counter of \<open>nextVarId\<close> and what the
  outermost consumer has collected. A generator answers, when it ends or is dropped, the
  last signal and the state; \<open>None\<close> is a proof that does not come back (unification or
  substitution loops, or the nesting of predicate calls exceeds the bound \<open>n\<close>).
\<close>

datatype signal = Resume | Stop nat

type_synonym 'a consumer = "ProveResult \<Rightarrow> int \<times> 'a \<Rightarrow> (signal \<times> int \<times> 'a) option"

function (sequential) provePred :: "nat \<Rightarrow> PredProp \<Rightarrow> Env \<Rightarrow> Knowledge \<Rightarrow> 'a consumer \<Rightarrow> int \<times> 'a \<Rightarrow> (signal \<times> int \<times> 'a) option"
and proveRules :: "nat \<Rightarrow> Rule list \<Rightarrow> PredProp \<Rightarrow> Env \<Rightarrow> Knowledge \<Rightarrow> 'a consumer \<Rightarrow> int \<times> 'a \<Rightarrow> (signal \<times> int \<times> 'a) option"
and proveProp :: "nat \<Rightarrow> Prop \<Rightarrow> Env \<Rightarrow> Knowledge \<Rightarrow> 'a consumer \<Rightarrow> int \<times> 'a \<Rightarrow> (signal \<times> int \<times> 'a) option"
where
  "provePred 0 p env knowledge yield st = None"
| "provePred (Suc n) p env knowledge yield st =
     (if pred p = pred CutProp \<and> isNil (pterm p) then
        yield \<lparr>result_env = env, result_cut = True\<rparr> st
      else if pred p = pred TrueProp \<and> isNil (pterm p) then
        yield \<lparr>result_env = env, result_cut = False\<rparr> st
      else proveRules n (Knowledge_rules knowledge (pred p)) p env knowledge yield st)"
| "proveRules n [] p env knowledge yield st = Some (Resume, st)"
| "proveRules n (defaultRule # rules) p env knowledge yield st =
     (let (rule, count') = Rule_refresh defaultRule (fst st) in
      case Env_tryUnify env (pterm p) (pterm (head rule)) of
        None \<Rightarrow> None
      | Some None \<Rightarrow> proveRules n rules p env knowledge yield (count', snd st)
      | Some (Some env2) \<Rightarrow>
          (case goal rule of
             None \<Rightarrow>
               (case yield \<lparr>result_env = env2, result_cut = False\<rparr> (count', snd st) of
                  None \<Rightarrow> None
                | Some (Resume, st') \<Rightarrow> proveRules n rules p env knowledge yield st'
                | Some (Stop d, st') \<Rightarrow> Some (Stop d, st'))
           | Some g \<Rightarrow>
               (case proveProp n g env2 knowledge
                       (\<lambda>res st3.
                          case yield \<lparr>result_env = result_env res, result_cut = False\<rparr> st3 of
                            None \<Rightarrow> None
                          | Some (Resume, st') \<Rightarrow>
                              Some (if result_cut res then Stop 0 else Resume, st')
                          | Some (Stop d, st') \<Rightarrow> Some (Stop (Suc d), st'))
                       (count', snd st) of
                  None \<Rightarrow> None
                | Some (Resume, st') \<Rightarrow> proveRules n rules p env knowledge yield st'
                | Some (Stop 0, st') \<Rightarrow> Some (Resume, st')
                | Some (Stop (Suc d), st') \<Rightarrow> Some (Stop d, st'))))"
| "proveProp n (Pred p) env knowledge yield st = provePred n p env knowledge yield st"
| "proveProp n (ConjProp l r) env knowledge yield st =
     proveProp n l env knowledge
       (\<lambda>res2 st2.
          proveProp n r (result_env res2) knowledge
            (\<lambda>res3. yield \<lparr>result_env = result_env res3,
                            result_cut = result_cut res2 \<or> result_cut res3\<rparr>)
            st2)
       st"
  by pat_completeness auto

termination
  by (relation "measures [
     (\<lambda>x. case x of Inl (n, _) \<Rightarrow> n | Inr (Inl (n, _)) \<Rightarrow> n | Inr (Inr (n, _)) \<Rightarrow> n),
     (\<lambda>x. case x of Inl _ \<Rightarrow> 0 | Inr (Inl _) \<Rightarrow> 2 | Inr (Inr _) \<Rightarrow> 1),
     (\<lambda>x. case x of Inl _ \<Rightarrow> 0 | Inr (Inl (_, rules, _)) \<Rightarrow> length rules
                   | Inr (Inr (_, p, _)) \<Rightarrow> size p)]")
    auto

definition proveCore :: "nat \<Rightarrow> Prop \<Rightarrow> Env \<Rightarrow> Knowledge \<Rightarrow> (Env \<Rightarrow> int \<times> 'a \<Rightarrow> (signal \<times> int \<times> 'a) option) \<Rightarrow> int \<times> 'a \<Rightarrow> (signal \<times> int \<times> 'a) option" where
  "proveCore n p env knowledge yield st =
     proveProp n p env knowledge (\<lambda>res. yield (result_env res)) st"

section \<open>Queries (evaluating.ts, query)\<close>

text \<open>
  An assignment of a solution is \<open>{varName, unbound: true}\<close> or \<open>{varName, term}\<close>.
\<close>

datatype Assignment =
    Unbound string
  | Bound string Term

type_synonym Solution = "Assignment list"

text \<open>
  Modelled from the spec: \<open>distinct\<close> of \<open>iterable.ts\<close>, which is not among the sources.
  The spec has it keep the distinct variables in the order of their first occurrence.
\<close>

fun distinct_vars :: "Var list \<Rightarrow> Var list" where
  "distinct_vars [] = []"
| "distinct_vars (v # vs) = v # distinct_vars (filter (\<lambda>w. w \<noteq> v) vs)"

text \<open>The body of the loop over the query's variables: one assignment per variable.\<close>

definition assignment :: "Env \<Rightarrow> Var \<Rightarrow> Assignment option" where
  "assignment localEnv v =
     Env_substitute localEnv (VarTerm v) \<bind> (\<lambda>t.
       let unbound = (case t of VarTerm w \<Rightarrow> Env_tryFind localEnv w = None | _ \<Rightarrow> False)
       in Some (if unbound then Unbound (varName v) else Bound (varName v) t))"

fun solution :: "Env \<Rightarrow> Var list \<Rightarrow> Solution option" where
  "solution localEnv [] = Some []"
| "solution localEnv (v # vs) =
     assignment localEnv v \<bind> (\<lambda>a. solution localEnv vs \<bind> (\<lambda>as. Some (a # as)))"

text \<open>
  \<open>query\<close> answers the solutions in the order they are yielded, with the count the
  counter has reached once the enumeration has ended.
\<close>

definition query :: "nat \<Rightarrow> Prop \<Rightarrow> Env \<Rightarrow> Knowledge \<Rightarrow> int \<Rightarrow> (Solution list \<times> int) option" where
  "query n p globalEnv globalKnowledge count =
     (let (p', count') = Prop_refresh p count;
          vars = distinct_vars (Prop_vars p')
      in case proveCore n p' globalEnv globalKnowledge
                (\<lambda>localEnv st.
                   solution localEnv vars \<bind> (\<lambda>s. Some (Resume, fst st, snd st @ [s])))
                (count', []) of
           None \<Rightarrow> None
         | Some (sig, count'', solutions) \<Rightarrow> Some (solutions, count''))"

section \<open>The proof system (evaluating.ts, ImplProofSystem)\<close>

record ImplProofSystem =
  knowledge :: Knowledge

definition ImplProofSystem_assume :: "ImplProofSystem \<Rightarrow> Rule \<Rightarrow> ImplProofSystem" where
  "ImplProofSystem_assume this rule = \<lparr>knowledge = Knowledge_assume (knowledge this) rule\<rparr>"

definition ImplProofSystem_query :: "nat \<Rightarrow> ImplProofSystem \<Rightarrow> Prop \<Rightarrow> int \<Rightarrow> (Solution list \<times> int) option" where
  "ImplProofSystem_query n this p count = query n p Env_default (knowledge this) count"

definition createProofSystem :: ImplProofSystem where
  "createProofSystem = \<lparr>knowledge = Knowledge_default\<rparr>"

section \<open>Knowledge and proof systems as objects in a store\<close>










section \<open>Environments built by binding\<close>

text \<open>
  The environments the program can reach: the empty one, and the result of every
  \<open>Env.bind\<close> that returns.
\<close>

inductive reachable :: "Env \<Rightarrow> bool" where
  default: "reachable Env_default"
| bind: "reachable env \<Longrightarrow> Env_bind env v t = Some env' \<Longrightarrow> reachable env'"


definition extends :: "Env \<Rightarrow> Env \<Rightarrow> bool" where
  "extends env' env = (\<forall>v t. Env_tryFind env v = Some t \<longrightarrow> Env_tryFind env' v = Some t)"


text \<open>
  What an answer of \<open>Env.tryUnify\<close> has to be: an environment it answers extends the one
  it was given, and substitution in it has the same outcome on both terms.
\<close>

definition unifies :: "Env \<Rightarrow> Term \<Rightarrow> Term \<Rightarrow> Env option \<Rightarrow> bool" where
  "unifies env a b r =
     (\<forall>env'. r = Some env' \<longrightarrow>
        extends env' env \<and> Env_substitute env' a = Env_substitute env' b)"

text \<open>A consumer that keeps every result it is given and always comes back for more.\<close>

definition collect :: "ProveResult \<Rightarrow> int \<times> ProveResult list \<Rightarrow> (signal \<times> int \<times> ProveResult list) option" where
  "collect res st = Some (Resume, fst st, snd st @ [res])"

section \<open>Substitution, one equation per variant\<close>

lemma substitute_VarTerm:
  "Env_substitute env (VarTerm v) =
     (case Env_tryFind env v of
        None \<Rightarrow> Some (VarTerm v)
      | Some bound \<Rightarrow> Env_substitute env bound)"
  by (subst Env_substitute.simps) simp

lemma substitute_AtomTerm: "Env_substitute env (AtomTerm a) = Some (AtomTerm a)"
  by (subst Env_substitute.simps) simp

lemma substitute_AppTerm:
  "Env_substitute env (AppTerm f x) = Env_substitute env x \<bind> (\<lambda>x'. Some (AppTerm f x'))"
  by (subst Env_substitute.simps) simp

lemma substitute_ConsTerm:
  "Env_substitute env (ConsTerm hd1 tl1) =
     Env_substitute env hd1 \<bind> (\<lambda>hd1'.
     Env_substitute env tl1 \<bind> (\<lambda>tl1'. Some (ConsTerm hd1' tl1')))"
  by (subst Env_substitute.simps) simp

lemmas substitute_eqs =
  substitute_VarTerm substitute_AtomTerm substitute_AppTerm substitute_ConsTerm

lemma tryFind_default: "Env_tryFind Env_default v = None"
  by (simp add: Env_tryFind_def Env_default_def)

section \<open>Lookup after a binding\<close>

lemma tryFind_update:
  "Env_tryFind (env(varName v \<mapsto> (case env (varName v) of None \<Rightarrow> Map.empty | Some m \<Rightarrow> m)(varId v \<mapsto> s))) w
     = (if w = v then Some s else Env_tryFind env w)"
  by (cases w; cases v) (auto simp: Env_tryFind_def split: option.splits)

lemma Env_bind_cases:
  assumes "Env_bind env v t = Some env'"
  obtains (refused) "Env_substitute env t = Some (VarTerm v)" "env' = env"
  | (bound) s where "Env_substitute env t = Some s" "s \<noteq> VarTerm v"
      "\<And>w. Env_tryFind env' w = (if w = v then Some s else Env_tryFind env w)"
proof -
  from assms obtain s where s: "Env_substitute env t = Some s"
    by (auto simp: Env_bind_def split: bind_splits)
  show thesis
  proof (cases "s = VarTerm v")
    case True
    with assms s have "env' = env"
      by (simp add: Env_bind_def)
    with True s show thesis by (intro refused) simp_all
  next
    case False
    then have "\<not> (case s of VarTerm w \<Rightarrow> varName w = varName v \<and> varId w = varId v | _ \<Rightarrow> False)"
      by (cases s; cases v) (auto split: Term.splits)
    with assms s have "env' = env(varName v \<mapsto> (case env (varName v) of None \<Rightarrow> Map.empty | Some m \<Rightarrow> m)(varId v \<mapsto> s))"
      by (simp add: Env_bind_def Let_def)
    with s False show thesis
      by (intro bound[of s]) (simp_all add: tryFind_update)
  qed
qed

section \<open>Substitution: induction over a call that returns\<close>

lemma substitute_induct [consumes 1, case_names unbound bound atom app cons]:
  assumes run: "Env_substitute env t = Some s"
    and unbound: "\<And>v. Env_tryFind env v = None \<Longrightarrow> P (VarTerm v) (VarTerm v)"
    and bound: "\<And>v b s. Env_tryFind env v = Some b \<Longrightarrow> Env_substitute env b = Some s
                  \<Longrightarrow> P b s \<Longrightarrow> P (VarTerm v) s"
    and atom: "\<And>a. P (AtomTerm a) (AtomTerm a)"
    and app: "\<And>f x x'. Env_substitute env x = Some x' \<Longrightarrow> P x x'
                  \<Longrightarrow> P (AppTerm f x) (AppTerm f x')"
    and cons: "\<And>hd1 tl1 hd1' tl1'. Env_substitute env hd1 = Some hd1' \<Longrightarrow> P hd1 hd1'
                  \<Longrightarrow> Env_substitute env tl1 = Some tl1' \<Longrightarrow> P tl1 tl1'
                  \<Longrightarrow> P (ConsTerm hd1 tl1) (ConsTerm hd1' tl1')"
  shows "P t s"
proof -
  define Q where "Q e u r \<longleftrightarrow> (e = env \<longrightarrow> Env_substitute env u = Some r \<and> P u r)" for e u r
  have "Q env t s"
  proof (rule Env_substitute.raw_induct[where P = Q, OF _ run])
    fix f e u r
    assume IH: "\<And>e u r. f e u = Some r \<Longrightarrow> Q e u r"
    assume body: "(case u of
        VarTerm v \<Rightarrow> (case Env_tryFind e v of None \<Rightarrow> Some u | Some bound \<Rightarrow> f e bound)
      | AtomTerm a \<Rightarrow> Some u
      | AppTerm g x \<Rightarrow> f e x \<bind> (\<lambda>x'. Some (AppTerm g x'))
      | ConsTerm hd1 tl1 \<Rightarrow>
          f e hd1 \<bind> (\<lambda>hd1'. f e tl1 \<bind> (\<lambda>tl1'. Some (ConsTerm hd1' tl1')))) = Some r"
    have rec: "Env_substitute env u' = Some r' \<and> P u' r'" if "f env u' = Some r'" for u' r'
      using IH[OF that] by (simp add: Q_def)
    show "Q e u r"
      unfolding Q_def
    proof
      assume e: "e = env"
      show "Env_substitute env u = Some r \<and> P u r"
      proof (cases u)
        case (VarTerm v)
        show ?thesis
        proof (cases "Env_tryFind env v")
          case None
          with body VarTerm e show ?thesis
            by (auto simp: substitute_VarTerm intro: unbound)
        next
          case (Some b)
          with body VarTerm e have "f env b = Some r" by simp
          from rec[OF this] Some VarTerm show ?thesis
            by (auto simp: substitute_VarTerm intro: bound)
        qed
      next
        case (AtomTerm a)
        with body show ?thesis by (auto simp: substitute_AtomTerm intro: atom)
      next
        case (AppTerm g x)
        with body e obtain x' where "f env x = Some x'" "r = AppTerm g x'"
          by (auto split: bind_splits)
        with rec[OF this(1)] AppTerm show ?thesis
          by (auto simp: substitute_AppTerm intro: app)
      next
        case (ConsTerm h1 t1)
        with body e obtain h1' t1' where "f env h1 = Some h1'" "f env t1 = Some t1'"
            "r = ConsTerm h1' t1'"
          by (auto split: bind_splits)
        with rec[OF this(1)] rec[OF this(2)] ConsTerm show ?thesis
          by (auto simp: substitute_ConsTerm intro: cons)
      qed
    qed
  qed
  then show ?thesis by (simp add: Q_def)
qed

lemma substitute_result_unbound:
  "Env_substitute env t = Some s \<Longrightarrow> v \<in> set (Term_vars s) \<Longrightarrow> Env_tryFind env v = None"
  by (induction rule: substitute_induct) auto

lemma substitute_fixed:
  "(\<And>v. v \<in> set (Term_vars s) \<Longrightarrow> Env_tryFind env v = None) \<Longrightarrow> Env_substitute env s = Some s"
  by (induction s) (auto simp: substitute_eqs)

lemma substitute_lift:
  assumes "Env_substitute env t = Some s" "extends env' env"
  shows "Env_substitute env' t = Env_substitute env' s"
  using assms
proof (induction rule: substitute_induct)
  case (bound v b s)
  then have "Env_tryFind env' v = Some b" by (simp add: extends_def)
  with bound show ?case by (simp add: substitute_VarTerm)
qed (simp_all add: substitute_eqs)

lemma substitute_returns_below:
  assumes "Env_substitute env' t = Some s'" "extends env' env"
  shows "\<exists>s. Env_substitute env t = Some s"
  using assms
proof (induction rule: substitute_induct)
  case (unbound v)
  then have "Env_tryFind env v = None"
    by (cases "Env_tryFind env v") (auto simp: extends_def)
  then show ?case by (simp add: substitute_VarTerm)
next
  case (bound v b s)
  then show ?case
    by (cases "Env_tryFind env v") (auto simp: extends_def substitute_VarTerm)
qed (auto simp: substitute_eqs)

lemma substitute_eq_lift:
  assumes "Env_substitute env a = Env_substitute env b" "extends env' env"
  shows "Env_substitute env' a = Env_substitute env' b"
proof (cases "Env_substitute env a")
  case None
  with assms substitute_returns_below[of env' a _ env] substitute_returns_below[of env' b _ env]
  have "Env_substitute env' a = None" "Env_substitute env' b = None"
    by (metis not_Some_eq)+
  then show ?thesis by simp
next
  case (Some s)
  with assms substitute_lift[of env a s env'] substitute_lift[of env b s env'] show ?thesis
    by simp
qed

section \<open>Unification: each branch, and what an answer guarantees\<close>

lemma tryUnify_VarTerm_left: "Env_tryUnify env (VarTerm v) rTerm = tryUnifyVar env v rTerm"
  by (subst Env_tryUnify.simps) (simp add: tryUnifyVar_def)

lemma tryUnify_VarTerm_right:
  "(case lTerm of VarTerm w \<Rightarrow> False | _ \<Rightarrow> True)
     \<Longrightarrow> Env_tryUnify env lTerm (VarTerm v) = tryUnifyVar env v lTerm"
  by (subst Env_tryUnify.simps) (simp add: tryUnifyVar_def split: Term.splits)

lemma tryUnify_AtomTerm:
  "Env_tryUnify env (AtomTerm a) (AtomTerm b) = (if a = b then Some (Some env) else Some None)"
  "Env_tryUnify env (AtomTerm a) (AppTerm g y) = Some None"
  "Env_tryUnify env (AtomTerm a) (ConsTerm hd2 tl2) = Some None"
  by (subst Env_tryUnify.simps, simp)+

lemma tryUnify_AppTerm:
  "Env_tryUnify env (AppTerm f x) (AppTerm g y) = (if f = g then Env_tryUnify env x y else Some None)"
  "Env_tryUnify env (AppTerm f x) (AtomTerm b) = Some None"
  "Env_tryUnify env (AppTerm f x) (ConsTerm hd2 tl2) = Some None"
  by (subst Env_tryUnify.simps, simp)+

lemma tryUnify_ConsTerm:
  "Env_tryUnify env (ConsTerm hd1 tl1) (ConsTerm hd2 tl2) =
     Env_tryUnify env hd1 hd2 \<bind> (\<lambda>r.
       case r of None \<Rightarrow> Some None | Some env2 \<Rightarrow> Env_tryUnify env2 tl1 tl2)"
  "Env_tryUnify env (ConsTerm hd1 tl1) (AtomTerm b) = Some None"
  "Env_tryUnify env (ConsTerm hd1 tl1) (AppTerm g y) = Some None"
  by (subst Env_tryUnify.simps, simp)+

lemmas tryUnify_eqs =
  tryUnify_VarTerm_left tryUnify_VarTerm_right tryUnify_AtomTerm tryUnify_AppTerm tryUnify_ConsTerm

lemmas run_eqs = tryUnify_eqs tryUnifyVar_def Env_bind_def substitute_eqs Env_tryFind_def Env_default_def

lemma cyclic_no_return:
  assumes "Env_substitute env t = Some s"
    and "Env_tryFind env v = Some (AppTerm f (VarTerm v))"
    and "\<And>w. w \<noteq> v \<Longrightarrow> Env_tryFind env w = None"
  shows "v \<notin> set (Term_vars t)"
  using assms
proof (induction rule: substitute_induct)
  case (bound w b s)
  then have "w = v" by (cases "w = v") auto
  with bound show ?case by auto
qed auto


lemma extends_refl: "extends env env"
  by (simp add: extends_def)

lemma extends_trans: "extends env3 env2 \<Longrightarrow> extends env2 env \<Longrightarrow> extends env3 env"
  by (simp add: extends_def)

lemma bind_unbound_sound:
  assumes "Env_bind env v t = Some env'" "Env_tryFind env v = None"
  shows "extends env' env \<and> Env_substitute env' (VarTerm v) = Env_substitute env' t"
  using assms(1)
proof (cases rule: Env_bind_cases)
  case refused
  with assms(2) show ?thesis
    by (simp add: extends_refl substitute_VarTerm)
next
  case (bound s)
  from bound(3) assms(2) have ext: "extends env' env"
    by (auto simp: extends_def)
  from bound(3) have "Env_substitute env' (VarTerm v) = Env_substitute env' s"
    by (simp add: substitute_VarTerm)
  with substitute_lift[OF bound(1) ext] ext show ?thesis by simp
qed

lemma var_step:
  assumes IH: "\<And>e a b r. f e a b = Some r \<Longrightarrow> unifies e a b r"
    and step: "(case Env_tryFind env v of
                  None \<Rightarrow> map_option Some (Env_bind env v t)
                | Some bound \<Rightarrow> Env_substitute env bound \<bind> f env t) = Some r"
  shows "unifies env (VarTerm v) t r" and "unifies env t (VarTerm v) r"
proof -
  have "extends env' env \<and> Env_substitute env' (VarTerm v) = Env_substitute env' t"
    if r: "r = Some env'" for env'
  proof (cases "Env_tryFind env v")
    case None
    with step r have "Env_bind env v t = Some env'" by auto
    from bind_unbound_sound[OF this None] show ?thesis .
  next
    case (Some bound)
    with step obtain b where b: "Env_substitute env bound = Some b" and call: "f env t b = Some r"
      by (auto split: bind_splits)
    from IH[OF call] r have ext: "extends env' env"
      and eq: "Env_substitute env' t = Env_substitute env' b"
      by (simp_all add: unifies_def)
    from ext Some have "Env_tryFind env' v = Some bound"
      by (simp add: extends_def)
    then have "Env_substitute env' (VarTerm v) = Env_substitute env' bound"
      by (simp add: substitute_VarTerm)
    with substitute_lift[OF b ext] eq ext show ?thesis by simp
  qed
  then show "unifies env (VarTerm v) t r" and "unifies env t (VarTerm v) r"
    by (auto simp: unifies_def)
qed

lemma tryUnify_unifies:
  assumes "Env_tryUnify env a b = Some r"
  shows "unifies env a b r"
proof (rule Env_tryUnify.raw_induct[where P = unifies, OF _ assms])
  fix f env lTerm rTerm r
  assume IH: "\<And>e a b r. f e a b = Some r \<Longrightarrow> unifies e a b r"
  assume body: "(case lTerm of
        VarTerm v \<Rightarrow>
          (case Env_tryFind env v of
             None \<Rightarrow> map_option Some (Env_bind env v rTerm)
           | Some bound \<Rightarrow> Env_substitute env bound \<bind> f env rTerm)
      | AtomTerm a \<Rightarrow>
          (case rTerm of
             VarTerm v \<Rightarrow>
               (case Env_tryFind env v of
                  None \<Rightarrow> map_option Some (Env_bind env v lTerm)
                | Some bound \<Rightarrow> Env_substitute env bound \<bind> f env lTerm)
           | AtomTerm b \<Rightarrow> if a = b then Some (Some env) else Some None
           | _ \<Rightarrow> Some None)
      | AppTerm g x \<Rightarrow>
          (case rTerm of
             VarTerm v \<Rightarrow>
               (case Env_tryFind env v of
                  None \<Rightarrow> map_option Some (Env_bind env v lTerm)
                | Some bound \<Rightarrow> Env_substitute env bound \<bind> f env lTerm)
           | AppTerm g' y \<Rightarrow> if g = g' then f env x y else Some None
           | _ \<Rightarrow> Some None)
      | ConsTerm hd1 tl1 \<Rightarrow>
          (case rTerm of
             VarTerm v \<Rightarrow>
               (case Env_tryFind env v of
                  None \<Rightarrow> map_option Some (Env_bind env v lTerm)
                | Some bound \<Rightarrow> Env_substitute env bound \<bind> f env lTerm)
           | ConsTerm hd2 tl2 \<Rightarrow>
               f env hd1 hd2 \<bind> (\<lambda>r.
                 case r of
                   None \<Rightarrow> Some None
                 | Some env2 \<Rightarrow> f env2 tl1 tl2)
           | _ \<Rightarrow> Some None)) = Some r"
  show "unifies env lTerm rTerm r"
  proof (cases lTerm)
    case (VarTerm v)
    with body show ?thesis
      by (simp only: Term.case) (rule var_step(1)[where f = f, OF IH])
  next
    case l: (AtomTerm a)
    show ?thesis
    proof (cases rTerm)
      case (VarTerm v)
      with body l show ?thesis
        by (simp only: Term.case) (rule var_step(2)[where f = f, OF IH])
    qed (use body l in \<open>auto simp: unifies_def extends_refl split: if_splits\<close>)
  next
    case l: (AppTerm g x)
    show ?thesis
    proof (cases rTerm)
      case (VarTerm v)
      with body l show ?thesis
        by (simp only: Term.case) (rule var_step(2)[where f = f, OF IH])
    next
      case (AppTerm g' y)
      with body l IH[of env x y r] show ?thesis
        by (auto simp: unifies_def substitute_AppTerm split: if_splits)
    qed (use body l in \<open>auto simp: unifies_def\<close>)
  next
    case l: (ConsTerm hd1 tl1)
    show ?thesis
    proof (cases rTerm)
      case (VarTerm v)
      with body l show ?thesis
        by (simp only: Term.case) (rule var_step(2)[where f = f, OF IH])
    next
      case (ConsTerm hd2 tl2)
      with body l obtain r1 where h: "f env hd1 hd2 = Some r1"
        and rest: "(case r1 of None \<Rightarrow> Some None | Some env2 \<Rightarrow> f env2 tl1 tl2) = Some r"
        by (auto split: bind_splits)
      show ?thesis
        unfolding unifies_def
      proof (intro allI impI)
        fix env'
        assume r: "r = Some env'"
        with rest obtain env2 where r1: "r1 = Some env2" and t: "f env2 tl1 tl2 = Some (Some env')"
          by (cases r1) auto
        from IH[OF h] r1 have e2: "extends env2 env"
          and heq: "Env_substitute env2 hd1 = Env_substitute env2 hd2"
          by (simp_all add: unifies_def)
        from IH[OF t] have e3: "extends env' env2"
          and teq: "Env_substitute env' tl1 = Env_substitute env' tl2"
          by (simp_all add: unifies_def)
        from substitute_eq_lift[OF heq e3] teq extends_trans[OF e3 e2] l ConsTerm
        show "extends env' env \<and> Env_substitute env' lTerm = Env_substitute env' rTerm"
          by (simp add: substitute_ConsTerm)
      qed
    qed (use body l in \<open>auto simp: unifies_def\<close>)
  qed
qed

section \<open>Chains of variable links\<close>






section \<open>Running the prover\<close>

lemmas prove_eqs = query_def proveCore_def Prop_refresh_def Rule_refresh_def nextVarId_def
  PredProp_withVarId_def Knowledge_rules_def Knowledge_assume_def Knowledge_default_def
  assignment_def isNil_def CutProp_def TrueProp_def nilTerm_def Let_def
  ImplProofSystem_query_def ImplProofSystem_assume_def createProofSystem_def collect_def

lemma rules_assumeMany:
  "Knowledge_rules (Knowledge_assumeMany k rs) p
     = Knowledge_rules k p @ filter (\<lambda>r. pred (head r) = p) rs"
  by (induction rs arbitrary: k) (auto simp: Knowledge_rules_def Knowledge_assume_def Let_def)






lemma rules_default: "Knowledge_rules Knowledge_default p = []"
  by (simp add: Knowledge_rules_def Knowledge_default_def)

lemma rules_assume:
  "Knowledge_rules (Knowledge_assume K rule) p =
     (if p = pred (head rule) then Knowledge_rules K p @ [rule] else Knowledge_rules K p)"
  by (simp add: Knowledge_rules_def Knowledge_assume_def Let_def)


lemma proveRules_masks_cut:
  "proveRules n rs p env kn yield st =
     proveRules n rs p env kn
       (\<lambda>res. yield \<lparr>result_env = result_env res, result_cut = False\<rparr>) st"
proof (induction rs arbitrary: st)
  case Nil
  show ?case by simp
next
  case (Cons r rs)
  show ?case
    by (simp add: Let_def Cons.IH[symmetric] split: prod.splits option.splits signal.splits nat.splits)
qed

section \<open>The store only grows\<close>








section \<open>The tests of evaluating.ts, on the model\<close>

text \<open>
  The test suite at the end of \<open>evaluating.ts\<close> states what the author expects of
  \<open>Knowledge\<close>, \<open>Env\<close> and \<open>query\<close>. Each expectation holds of the definitions above, for
  every count of the id counter and every bound that lets the proof through.
\<close>

lemma test_Knowledge_undefined_predicate: "Knowledge_rules Knowledge_default ''human'' = []"
  by (rule rules_default)

lemma test_Knowledge_can_assume_many:
  "Knowledge_rules (Knowledge_assume Knowledge_default \<lparr>head = \<lparr>pred = ''human'', pterm = AtomTerm ''socrates''\<rparr>, goal = None\<rparr>) ''human''
     = [\<lparr>head = \<lparr>pred = ''human'', pterm = AtomTerm ''socrates''\<rparr>, goal = None\<rparr>]
   \<and> Knowledge_rules
        (Knowledge_assume (Knowledge_assume Knowledge_default \<lparr>head = \<lparr>pred = ''human'', pterm = AtomTerm ''socrates''\<rparr>, goal = None\<rparr>)
           \<lparr>head = \<lparr>pred = ''human'', pterm = AtomTerm ''plato''\<rparr>, goal = None\<rparr>) ''human''
     = [\<lparr>head = \<lparr>pred = ''human'', pterm = AtomTerm ''socrates''\<rparr>, goal = None\<rparr>,
        \<lparr>head = \<lparr>pred = ''human'', pterm = AtomTerm ''plato''\<rparr>, goal = None\<rparr>]"
  by (simp add: rules_assume rules_default)

lemma test_Env_bind_and_find:
  "Env_bind Env_default \<lparr>varId = -1, varName = ''x''\<rparr> (AtomTerm ''socrates'')
     \<bind> (\<lambda>e. Env_tryFind e \<lparr>varId = -1, varName = ''x''\<rparr>) = Some (AtomTerm ''socrates'')"
  by (simp add: run_eqs)

lemma test_Env_unbound_var: "Env_tryFind Env_default \<lparr>varId = -1, varName = ''x''\<rparr> = None"
  by (rule tryFind_default)

lemma test_tryUnify_var_binding:
  "Env_tryUnify Env_default (VarTerm \<lparr>varId = -1, varName = ''x''\<rparr>) (AtomTerm ''socrates'')
     \<bind> (\<lambda>r. case r of None \<Rightarrow> None | Some e \<Rightarrow> Env_substitute e (VarTerm \<lparr>varId = -1, varName = ''x''\<rparr>))
   = Some (AtomTerm ''socrates'')"
  by (simp add: run_eqs)

lemma test_tryUnify_app_binding:
  "Env_tryUnify Env_default (AppTerm ''f'' (VarTerm \<lparr>varId = -1, varName = ''x''\<rparr>)) (AppTerm ''f'' (AtomTerm ''socrates''))
     \<bind> (\<lambda>r. case r of None \<Rightarrow> None | Some e \<Rightarrow> Env_substitute e (VarTerm \<lparr>varId = -1, varName = ''x''\<rparr>))
   = Some (AtomTerm ''socrates'')"
  by (simp add: run_eqs)

lemma test_tryUnify_list_binding:
  "Env_tryUnify Env_default
     (ConsTerm (VarTerm \<lparr>varId = -1, varName = ''x''\<rparr>) (ConsTerm (AtomTerm ''plato'') nilTerm))
     (ConsTerm (AtomTerm ''socrates'') (ConsTerm (VarTerm \<lparr>varId = -1, varName = ''y''\<rparr>) nilTerm))
     \<bind> (\<lambda>r. case r of
                 None \<Rightarrow> None
               | Some e \<Rightarrow> Env_substitute e (ConsTerm (VarTerm \<lparr>varId = -1, varName = ''x''\<rparr>) (ConsTerm (VarTerm \<lparr>varId = -1, varName = ''y''\<rparr>) nilTerm)))
   = Some (ConsTerm (AtomTerm ''socrates'') (ConsTerm (AtomTerm ''plato'') nilTerm))"
  by (simp add: run_eqs nilTerm_def)

lemma test_Syllogism_can_find_rules:
  "Knowledge_rules (Knowledge_assumeMany Knowledge_default
       [\<lparr>head = \<lparr>pred = ''mortal'', pterm = VarTerm \<lparr>varId = -1, varName = ''x''\<rparr>\<rparr>,
        goal = Some (Pred \<lparr>pred = ''human'', pterm = VarTerm \<lparr>varId = -1, varName = ''x''\<rparr>\<rparr>)\<rparr>,
        \<lparr>head = \<lparr>pred = ''human'', pterm = AtomTerm ''socrates''\<rparr>, goal = None\<rparr>]) ''mortal''
     = [\<lparr>head = \<lparr>pred = ''mortal'', pterm = VarTerm \<lparr>varId = -1, varName = ''x''\<rparr>\<rparr>,
        goal = Some (Pred \<lparr>pred = ''human'', pterm = VarTerm \<lparr>varId = -1, varName = ''x''\<rparr>\<rparr>)\<rparr>]
   \<and> Knowledge_rules (Knowledge_assumeMany Knowledge_default
       [\<lparr>head = \<lparr>pred = ''mortal'', pterm = VarTerm \<lparr>varId = -1, varName = ''x''\<rparr>\<rparr>,
        goal = Some (Pred \<lparr>pred = ''human'', pterm = VarTerm \<lparr>varId = -1, varName = ''x''\<rparr>\<rparr>)\<rparr>,
        \<lparr>head = \<lparr>pred = ''human'', pterm = AtomTerm ''socrates''\<rparr>, goal = None\<rparr>]) ''human''
     = [\<lparr>head = \<lparr>pred = ''human'', pterm = AtomTerm ''socrates''\<rparr>, goal = None\<rparr>]"
  by (simp add: rules_assumeMany rules_assume rules_default)

lemma test_Syllogism_can_match_head:
  "Env_tryUnify Env_default (VarTerm \<lparr>varId = -1, varName = ''x''\<rparr>) (AtomTerm ''socrates'')
     = Some (Some (Env_default(''x'' \<mapsto> Map.empty(-1 \<mapsto> AtomTerm ''socrates''))))"
  by (simp add: run_eqs)

lemma test_Syllogism_can_conclude:
  "query (Suc (Suc n)) (Pred \<lparr>pred = ''mortal'', pterm = AtomTerm ''socrates''\<rparr>) Env_default
     (Knowledge_assumeMany Knowledge_default
       [\<lparr>head = \<lparr>pred = ''mortal'', pterm = VarTerm \<lparr>varId = -1, varName = ''x''\<rparr>\<rparr>,
        goal = Some (Pred \<lparr>pred = ''human'', pterm = VarTerm \<lparr>varId = -1, varName = ''x''\<rparr>\<rparr>)\<rparr>,
        \<lparr>head = \<lparr>pred = ''human'', pterm = AtomTerm ''socrates''\<rparr>, goal = None\<rparr>]) count
     = Some ([[]], count + 3)"
  by (simp add: prove_eqs run_eqs)

text \<open>
  A cut does its work when the body it stands in yields a result. With \<open>p :- !, q.\<close>,
  \<open>p :- r.\<close> and \<open>r.\<close> asserted and no rule for \<open>q\<close>, the body of the first rule yields
  nothing, and the query \<open>p\<close> has a solution through the second rule. And the results are
  pulled one at a time: with \<open>nat(0).\<close>, \<open>nat(s(X)) :- nat(X).\<close> and \<open>first(X) :- nat(X), !.\<close>
  the query \<open>first(X)\<close> has the one solution \<open>X = 0\<close>, although \<open>nat(X)\<close> has no last one.
\<close>

lemma cut_without_result:
  "query (Suc (Suc n)) (Pred \<lparr>pred = ''p'', pterm = nilTerm\<rparr>) Env_default
     (Knowledge_assumeMany Knowledge_default
       [\<lparr>head = \<lparr>pred = ''p'', pterm = nilTerm\<rparr>,
        goal = Some (ConjProp (Pred CutProp) (Pred \<lparr>pred = ''q'', pterm = nilTerm\<rparr>))\<rparr>,
        \<lparr>head = \<lparr>pred = ''p'', pterm = nilTerm\<rparr>,
        goal = Some (Pred \<lparr>pred = ''r'', pterm = nilTerm\<rparr>)\<rparr>,
        \<lparr>head = \<lparr>pred = ''r'', pterm = nilTerm\<rparr>, goal = None\<rparr>]) count
     = Some ([[]], count + 4)"
  by (simp add: prove_eqs run_eqs)

lemma cut_after_first_of_many:
  "query (Suc (Suc n)) (Pred \<lparr>pred = ''first'', pterm = VarTerm \<lparr>varId = -1, varName = ''x''\<rparr>\<rparr>) Env_default
     (Knowledge_assumeMany Knowledge_default
       [\<lparr>head = \<lparr>pred = ''nat'', pterm = AtomTerm ''0''\<rparr>, goal = None\<rparr>,
        \<lparr>head = \<lparr>pred = ''nat'', pterm = AppTerm ''s'' (VarTerm \<lparr>varId = -1, varName = ''x''\<rparr>)\<rparr>,
          goal = Some (Pred \<lparr>pred = ''nat'', pterm = VarTerm \<lparr>varId = -1, varName = ''x''\<rparr>\<rparr>)\<rparr>,
        \<lparr>head = \<lparr>pred = ''first'', pterm = VarTerm \<lparr>varId = -1, varName = ''x''\<rparr>\<rparr>,
          goal = Some (ConjProp (Pred \<lparr>pred = ''nat'', pterm = VarTerm \<lparr>varId = -1, varName = ''x''\<rparr>\<rparr>) (Pred CutProp))\<rparr>])
     count
     = Some ([[Bound ''x'' (AtomTerm ''0'')]], count + 3)"
  by (simp add: prove_eqs run_eqs)

section \<open>The claims about environments\<close>

text \<open>
  C9. A binding is local to one (name, id) slot: when \<open>Env.bind(env, v, t)\<close> returns,
  \<open>Env.tryFind\<close> answers on the result as on \<open>env\<close> for every variable other than
  \<open>v\<close>, be it of another name or of the same name and another id.
\<close>

theorem bind_changes_one_slot:
  "Env_bind env v t = Some env' \<Longrightarrow> varName w \<noteq> varName v \<or> varId w \<noteq> varId v
     \<Longrightarrow> Env_tryFind env' w = Env_tryFind env w"
  by (erule Env_bind_cases) auto

theorem bind_changes_one_slot_witness:
  "Env_bind Env_default \<lparr>varId = 1, varName = ''x''\<rparr> (AtomTerm ''a'')
     = Some (Env_default(''x'' \<mapsto> Map.empty(1 \<mapsto> AtomTerm ''a'')))
   \<and> Env_tryFind (Env_default(''x'' \<mapsto> Map.empty(1 \<mapsto> AtomTerm ''a''))) \<lparr>varId = 2, varName = ''x''\<rparr>
       = Env_tryFind Env_default \<lparr>varId = 2, varName = ''x''\<rparr>
   \<and> Env_tryFind (Env_default(''x'' \<mapsto> Map.empty(1 \<mapsto> AtomTerm ''a''))) \<lparr>varId = 1, varName = ''x''\<rparr>
       = Some (AtomTerm ''a'')"
proof -
  have b: "Env_bind Env_default \<lparr>varId = 1, varName = ''x''\<rparr> (AtomTerm ''a'')
     = Some (Env_default(''x'' \<mapsto> Map.empty(1 \<mapsto> AtomTerm ''a'')))"
    by (simp add: Env_bind_def substitute_AtomTerm Env_default_def)
  have d: "varName \<lparr>varId = 2, varName = ''x''\<rparr> \<noteq> varName \<lparr>varId = 1, varName = ''x''\<rparr>
      \<or> varId \<lparr>varId = (2::int), varName = ''x''\<rparr> \<noteq> varId \<lparr>varId = 1, varName = ''x''\<rparr>"
    by simp
  show ?thesis
    using b d bind_changes_one_slot [OF b d]
    by (simp add: Env_tryFind_def)
qed

text \<open>
  C6. Unification only adds: when \<open>Env.tryUnify(env, a, b)\<close> answers \<open>env'\<close>, every variable
  bound in \<open>env\<close> is bound to the same term in \<open>env'\<close>.
\<close>

theorem tryUnify_keeps_bindings:
  "Env_tryUnify env a b = Some (Some env') \<Longrightarrow> Env_tryFind env v = Some t
     \<Longrightarrow> Env_tryFind env' v = Some t"
  using tryUnify_unifies[of env a b "Some env'"] by (simp add: unifies_def extends_def)

theorem tryUnify_keeps_bindings_witness:
  "Env_tryUnify (Env_default(''z'' \<mapsto> Map.empty(1 \<mapsto> AtomTerm ''a''))) (VarTerm \<lparr>varId = 1, varName = ''x''\<rparr>) (VarTerm \<lparr>varId = 1, varName = ''z''\<rparr>)
     = Some (Some (Env_default(''z'' \<mapsto> Map.empty(1 \<mapsto> AtomTerm ''a''),
                              ''x'' \<mapsto> Map.empty(1 \<mapsto> AtomTerm ''a''))))
   \<and> Env_tryFind (Env_default(''z'' \<mapsto> Map.empty(1 \<mapsto> AtomTerm ''a''))) \<lparr>varId = 1, varName = ''z''\<rparr> = Some (AtomTerm ''a'')
   \<and> Env_tryFind (Env_default(''z'' \<mapsto> Map.empty(1 \<mapsto> AtomTerm ''a''),
                               ''x'' \<mapsto> Map.empty(1 \<mapsto> AtomTerm ''a''))) \<lparr>varId = 1, varName = ''z''\<rparr> = Some (AtomTerm ''a'')"
  (is "?run \<and> ?before \<and> ?after")
proof -
  have r: ?run by (simp add: run_eqs)
  have b: ?before by (simp add: Env_tryFind_def)
  from r b tryUnify_keeps_bindings[OF r b] show ?thesis by simp
qed

text \<open>
  C1, as the code has it. When \<open>Env.tryUnify(env, a, b)\<close> answers \<open>env'\<close>, substitution in
  \<open>env'\<close> has the same outcome on \<open>a\<close> and on \<open>b\<close>: if it returns a term on one, it returns
  the same term on the other. It may return on neither: there is no occurs check, so
  unifying \<open>X\<close> with \<open>f(X)\<close> answers the environment that binds \<open>X\<close> to \<open>f(X)\<close>, in which
  the substitution of \<open>X\<close> does not return.
\<close>

theorem tryUnify_same_outcome:
  "Env_tryUnify env a b = Some (Some env')
     \<Longrightarrow> Env_substitute env' a = Env_substitute env' b"
  using tryUnify_unifies[of env a b "Some env'"] by (simp add: unifies_def)

theorem tryUnify_same_outcome_witness:
  "Env_tryUnify Env_default
     (ConsTerm (VarTerm \<lparr>varId = -1, varName = ''x''\<rparr>) (ConsTerm (AtomTerm ''plato'') nilTerm))
     (ConsTerm (AtomTerm ''socrates'') (ConsTerm (VarTerm \<lparr>varId = -1, varName = ''y''\<rparr>) nilTerm))
   = Some (Some (Env_default(''x'' \<mapsto> Map.empty(-1 \<mapsto> AtomTerm ''socrates''),
                            ''y'' \<mapsto> Map.empty(-1 \<mapsto> AtomTerm ''plato''))))
   \<and> Env_substitute (Env_default(''x'' \<mapsto> Map.empty(-1 \<mapsto> AtomTerm ''socrates''),
                                 ''y'' \<mapsto> Map.empty(-1 \<mapsto> AtomTerm ''plato'')))
         (ConsTerm (VarTerm \<lparr>varId = -1, varName = ''x''\<rparr>) (ConsTerm (AtomTerm ''plato'') nilTerm))
       = Env_substitute (Env_default(''x'' \<mapsto> Map.empty(-1 \<mapsto> AtomTerm ''socrates''),
                                   ''y'' \<mapsto> Map.empty(-1 \<mapsto> AtomTerm ''plato'')))
         (ConsTerm (AtomTerm ''socrates'') (ConsTerm (VarTerm \<lparr>varId = -1, varName = ''y''\<rparr>) nilTerm))
   \<and> Env_substitute (Env_default(''x'' \<mapsto> Map.empty(-1 \<mapsto> AtomTerm ''socrates''),
                                 ''y'' \<mapsto> Map.empty(-1 \<mapsto> AtomTerm ''plato'')))
         (ConsTerm (AtomTerm ''socrates'') (ConsTerm (VarTerm \<lparr>varId = -1, varName = ''y''\<rparr>) nilTerm))
       = Some (ConsTerm (AtomTerm ''socrates'') (ConsTerm (AtomTerm ''plato'') nilTerm))"
  (is "?run \<and> ?same \<and> ?result")
proof -
  have r: ?run by (simp add: run_eqs nilTerm_def)
  have v: ?result by (simp add: run_eqs nilTerm_def)
  from r v tryUnify_same_outcome[OF r] show ?thesis by simp
qed

text \<open>
  The claim as the spec words it asks for two equal terms, for every environment and every
  pair of terms. At \<open>X\<close> and \<open>f(X)\<close> on the empty environment \<open>Env.tryUnify\<close> answers an
  environment, and the substitutions in it return no term.
\<close>

theorem tryUnify_equal_terms_counterexample:
  "Env_tryUnify Env_default (VarTerm \<lparr>varId = 1, varName = ''x''\<rparr>) (AppTerm ''f'' (VarTerm \<lparr>varId = 1, varName = ''x''\<rparr>))
     = Some (Some (Env_default(''x'' \<mapsto> Map.empty(1 \<mapsto> AppTerm ''f'' (VarTerm \<lparr>varId = 1, varName = ''x''\<rparr>)))))
   \<and> Env_substitute (Env_default(''x'' \<mapsto> Map.empty(1 \<mapsto> AppTerm ''f'' (VarTerm \<lparr>varId = 1, varName = ''x''\<rparr>))))
         (VarTerm \<lparr>varId = 1, varName = ''x''\<rparr>) = None
   \<and> Env_substitute (Env_default(''x'' \<mapsto> Map.empty(1 \<mapsto> AppTerm ''f'' (VarTerm \<lparr>varId = 1, varName = ''x''\<rparr>))))
         (AppTerm ''f'' (VarTerm \<lparr>varId = 1, varName = ''x''\<rparr>)) = None"
  (is "?run \<and> Env_substitute ?env (VarTerm ?x) = None \<and> ?app")
proof -
  have r: ?run by (simp add: run_eqs)
  have b: "Env_tryFind ?env ?x = Some (AppTerm ''f'' (VarTerm ?x))"
    by (simp add: Env_tryFind_def)
  have u: "Env_tryFind ?env w = None" if "w \<noteq> ?x" for w
    using that by (cases w) (auto simp: Env_tryFind_def Env_default_def)
  have n: "Env_substitute ?env (VarTerm ?x) = None"
  proof (cases "Env_substitute ?env (VarTerm ?x)")
    case (Some s)
    from cyclic_no_return[OF Some b u] show ?thesis by simp
  qed simp
  then have ?app by (simp add: substitute_AppTerm)
  with r n show ?thesis by simp
qed

text \<open>
  C5, as the code has it. In every environment, reachable by bindings or not, and for every
  term \<open>t\<close> on which \<open>Env.substitute\<close> returns, substituting in the result returns the
  result: the variables left in it are unbound.
\<close>

theorem substitute_idempotent:
  "Env_substitute env t = Some s \<Longrightarrow> Env_substitute env s = Some s"
  by (rule substitute_fixed) (rule substitute_result_unbound)

theorem substitute_idempotent_witness:
  "Env_substitute (Env_default(''x'' \<mapsto> Map.empty(1 \<mapsto> AtomTerm ''socrates'')))
       (AppTerm ''f'' (VarTerm \<lparr>varId = 1, varName = ''x''\<rparr>)) = Some (AppTerm ''f'' (AtomTerm ''socrates''))
   \<and> Env_substitute (Env_default(''x'' \<mapsto> Map.empty(1 \<mapsto> AtomTerm ''socrates'')))
       (AppTerm ''f'' (AtomTerm ''socrates'')) = Some (AppTerm ''f'' (AtomTerm ''socrates''))"
  (is "?first \<and> ?second")
proof -
  have f: ?first by (simp add: run_eqs)
  from f substitute_idempotent[OF f] show ?thesis by simp
qed

text \<open>
  The claim as the spec words it has substitution terminate in every environment reached by
  bindings. One binding from the empty environment, of \<open>X\<close> to \<open>f(X)\<close>, reaches an
  environment in which the substitution of \<open>X\<close> does not return.
\<close>

theorem substitute_reachable_counterexample:
  "Env_bind Env_default \<lparr>varId = 1, varName = ''x''\<rparr> (AppTerm ''f'' (VarTerm \<lparr>varId = 1, varName = ''x''\<rparr>))
     = Some (Env_default(''x'' \<mapsto> Map.empty(1 \<mapsto> AppTerm ''f'' (VarTerm \<lparr>varId = 1, varName = ''x''\<rparr>))))
   \<and> reachable (Env_default(''x'' \<mapsto> Map.empty(1 \<mapsto> AppTerm ''f'' (VarTerm \<lparr>varId = 1, varName = ''x''\<rparr>))))
   \<and> Env_substitute (Env_default(''x'' \<mapsto> Map.empty(1 \<mapsto> AppTerm ''f'' (VarTerm \<lparr>varId = 1, varName = ''x''\<rparr>))))
         (VarTerm \<lparr>varId = 1, varName = ''x''\<rparr>) = None"
  (is "?run \<and> reachable ?env \<and> Env_substitute ?env (VarTerm ?x) = None")
proof -
  have r: ?run by (simp add: run_eqs)
  have re: "reachable ?env"
    by (rule reachable.bind[OF reachable.default r])
  have b: "Env_tryFind ?env ?x = Some (AppTerm ''f'' (VarTerm ?x))"
    by (simp add: Env_tryFind_def)
  have u: "Env_tryFind ?env w = None" if "w \<noteq> ?x" for w
    using that by (cases w) (auto simp: Env_tryFind_def Env_default_def)
  have n: "Env_substitute ?env (VarTerm ?x) = None"
  proof (cases "Env_substitute ?env (VarTerm ?x)")
    case (Some s)
    from cyclic_no_return[OF Some b u] show ?thesis by simp
  qed simp
  with r re show ?thesis by simp
qed



section \<open>The claims about knowledge and the prover\<close>





text \<open>
  C2. The knowledge is built by asserting \<open>p :- !, q.\<close>, \<open>p :- r.\<close>, \<open>q.\<close> and \<open>r.\<close> in this
  order (the predicates applied to \<open>nil\<close>). With any bound on the nesting from 2 on and any
  count of the id counter:
  \<^item> the query \<open>p\<close> has exactly one solution, and the counter has moved by three: one id for
    the query, one for the rule \<open>p :- !, q.\<close> and one for \<open>q.\<close>, none for \<open>p :- r.\<close> or \<open>r.\<close>;
  \<^item> the one result that \<open>p\<close> yields has the cut flag false;
  \<^item> whatever rules follow \<open>p :- !, q.\<close> in the list of \<open>p\<close>, the query has this one solution
    and the counter moves by three: the rules after the first are not tried;
  \<^item> with the callers \<open>s :- p.\<close> and \<open>s :- r.\<close> asserted after them, the query \<open>s\<close> has two
    solutions: the cut in the rule of \<open>p\<close> leaves the second rule of \<open>s\<close> to be tried;
  \<^item> in general, every result the rules of a predicate yield reaches the consumer with the
    cut flag false.
\<close>

theorem cut_prunes_alternatives:
  "query (Suc (Suc n)) (Pred \<lparr>pred = ''p'', pterm = nilTerm\<rparr>) Env_default
     (Knowledge_assumeMany Knowledge_default
       [\<lparr>head = \<lparr>pred = ''p'', pterm = nilTerm\<rparr>,
        goal = Some (ConjProp (Pred CutProp) (Pred \<lparr>pred = ''q'', pterm = nilTerm\<rparr>))\<rparr>,
        \<lparr>head = \<lparr>pred = ''p'', pterm = nilTerm\<rparr>,
        goal = Some (Pred \<lparr>pred = ''r'', pterm = nilTerm\<rparr>)\<rparr>,
        \<lparr>head = \<lparr>pred = ''q'', pterm = nilTerm\<rparr>, goal = None\<rparr>,
        \<lparr>head = \<lparr>pred = ''r'', pterm = nilTerm\<rparr>, goal = None\<rparr>]) count
     = Some ([[]], count + 3)
   \<and> proveProp (Suc (Suc n)) (Pred \<lparr>pred = ''p'', pterm = nilTerm\<rparr>) Env_default
       (Knowledge_assumeMany Knowledge_default
         [\<lparr>head = \<lparr>pred = ''p'', pterm = nilTerm\<rparr>,
        goal = Some (ConjProp (Pred CutProp) (Pred \<lparr>pred = ''q'', pterm = nilTerm\<rparr>))\<rparr>,
          \<lparr>head = \<lparr>pred = ''p'', pterm = nilTerm\<rparr>,
        goal = Some (Pred \<lparr>pred = ''r'', pterm = nilTerm\<rparr>)\<rparr>,
          \<lparr>head = \<lparr>pred = ''q'', pterm = nilTerm\<rparr>, goal = None\<rparr>,
          \<lparr>head = \<lparr>pred = ''r'', pterm = nilTerm\<rparr>, goal = None\<rparr>]) collect (count, [])
     = Some (Resume, count + 2, [\<lparr>result_env = Env_default, result_cut = False\<rparr>])
   \<and> (\<forall>rest. query (Suc (Suc n)) (Pred \<lparr>pred = ''p'', pterm = nilTerm\<rparr>) Env_default
         (Knowledge_default(
            ''p'' \<mapsto> \<lparr>head = \<lparr>pred = ''p'', pterm = nilTerm\<rparr>,
        goal = Some (ConjProp (Pred CutProp) (Pred \<lparr>pred = ''q'', pterm = nilTerm\<rparr>))\<rparr> # rest,
            ''q'' \<mapsto> [\<lparr>head = \<lparr>pred = ''q'', pterm = nilTerm\<rparr>, goal = None\<rparr>],
            ''r'' \<mapsto> [\<lparr>head = \<lparr>pred = ''r'', pterm = nilTerm\<rparr>, goal = None\<rparr>])) count
       = Some ([[]], count + 3))
   \<and> query (Suc (Suc (Suc n))) (Pred \<lparr>pred = ''s'', pterm = nilTerm\<rparr>) Env_default
       (Knowledge_assumeMany Knowledge_default
         [\<lparr>head = \<lparr>pred = ''p'', pterm = nilTerm\<rparr>,
        goal = Some (ConjProp (Pred CutProp) (Pred \<lparr>pred = ''q'', pterm = nilTerm\<rparr>))\<rparr>,
          \<lparr>head = \<lparr>pred = ''p'', pterm = nilTerm\<rparr>,
        goal = Some (Pred \<lparr>pred = ''r'', pterm = nilTerm\<rparr>)\<rparr>,
          \<lparr>head = \<lparr>pred = ''q'', pterm = nilTerm\<rparr>, goal = None\<rparr>,
          \<lparr>head = \<lparr>pred = ''r'', pterm = nilTerm\<rparr>, goal = None\<rparr>,
          \<lparr>head = \<lparr>pred = ''s'', pterm = nilTerm\<rparr>,
            goal = Some (Pred \<lparr>pred = ''p'', pterm = nilTerm\<rparr>)\<rparr>,
          \<lparr>head = \<lparr>pred = ''s'', pterm = nilTerm\<rparr>,
            goal = Some (Pred \<lparr>pred = ''r'', pterm = nilTerm\<rparr>)\<rparr>]) count
     = Some ([[], []], count + 6)
   \<and> (\<forall>m rs p env kn yield st.
         proveRules m rs p env kn yield st =
         proveRules m rs p env kn
           (\<lambda>res. yield \<lparr>result_env = result_env res, result_cut = False\<rparr>) st)"
  (is "?one \<and> ?flag \<and> ?rest \<and> ?caller \<and> ?mask")
proof -
  have one: ?one by (simp add: prove_eqs run_eqs)
  have flag: ?flag by (simp add: prove_eqs run_eqs)
  have rest: ?rest by (simp add: prove_eqs run_eqs)
  have caller: ?caller by (simp add: prove_eqs run_eqs)
  have mask: ?mask
    by (intro allI) (rule proveRules_masks_cut)
  from one flag rest caller mask show ?thesis by blast
qed




end
